theory Spec2Isabelle
  imports Main
begin

section \<open>Requests, effects and handlers\<close>

text \<open>
  The package is a thin layer over \<^verbatim>\<open>net/http\<close>. A request is reduced to the path of
  its URL, the only part the routing of this package looks at. A parsed
  \<^verbatim>\<open>*url.URL\<close> is represented by the text its \<^verbatim>\<open>String\<close> method returns;
  \<^verbatim>\<open>url.Parse\<close> itself is a parameter of the functions that call it: it maps a string
  to \<open>Inl msg\<close> (the error's text) or to \<open>Inr u\<close>.
\<close>

record request =
  URLPath :: string

type_synonym url = string

type_synonym urlParse = "string \<Rightarrow> string + url"

text \<open>
  A panic is either raised by a \<^verbatim>\<open>panic(...)\<close> call of this package (with its message),
  by the Go runtime when a method is called on a nil interface or a field is read through
  a nil pointer, or by \<^verbatim>\<open>ServeMux.Handle\<close>.
\<close>

datatype panic =
    Panic string
  | NilDereference
  | MuxInvalidPattern
  | MuxNilHandler
  | MuxMultipleRegistrations string

record Server =
  URL :: url
  Healthy :: bool

text \<open>
  What a handler does with the \<^verbatim>\<open>http.ResponseWriter\<close> and with its collaborators is
  recorded as a list of effects, in the order in which they happen:
  a call of \<^verbatim>\<open>LoadBalancer.Select\<close> with the server list it was given,
  a call of \<^verbatim>\<open>http.Error\<close> with message and status code,
  a request handed to \<^verbatim>\<open>httputil.NewSingleHostReverseProxy(u)\<close>,
  a redirect (with its target), and the marks a middleware leaves when it is entered and
  left.
  The second component of a result is the panic that ended the call, if one did.
\<close>

datatype effect =
    SelectCall "Server list"
  | HttpError string nat
  | ProxyTo url
  | RedirectTo string
  | Enter string
  | Exit string

type_synonym result = "effect list \<times> panic option"

text \<open>An \<^verbatim>\<open>http.Handler\<close> is an interface value: \<open>None\<close> is nil.\<close>

type_synonym Handler = "(request \<Rightarrow> result) option"

type_synonym Middleware = "Handler \<Rightarrow> Handler"

definition serve :: "Handler \<Rightarrow> request \<Rightarrow> result" where
  "serve h r = (case h of None \<Rightarrow> ([], Some NilDereference) | Some f \<Rightarrow> f r)"

section \<open>Backends\<close>

text \<open>
  \<^verbatim>\<open>Select(servers []*Server, req *http.Request) (*Server, error)\<close>: the selector
  is represented by the answer it gives at a call; the returned pointer and the returned
  error may each be nil.
\<close>

type_synonym LoadBalancer = "Server list \<Rightarrow> request \<Rightarrow> Server option \<times> string option"

record HealthStatus =
  hs_Healthy :: bool
  hs_LastCheck :: nat
  hs_Error :: "string option"

record healthChecker =
  path :: string
  interval :: int

record simpleBackend =
  sb_name :: string
  url :: url

record clusterBackend =
  name :: string
  servers :: "Server list"
  loadBalancer :: "LoadBalancer option"
  healthCheck :: "healthChecker option"

datatype Backend = SimpleBackend simpleBackend | ClusterBackend clusterBackend

definition simple_ServeHTTP :: "simpleBackend \<Rightarrow> request \<Rightarrow> result" where
  "simple_ServeHTTP b r = ([ProxyTo (url b)], None)"

definition cluster_ServeHTTP :: "clusterBackend \<Rightarrow> request \<Rightarrow> result" where
  "cluster_ServeHTTP b r =
     (case loadBalancer b of
        None \<Rightarrow> ([], Some NilDereference)
      | Some lb \<Rightarrow>
          (case lb (servers b) r of
             (server, Some err) \<Rightarrow>
               ([SelectCall (servers b), HttpError ''No available backend'' 503], None)
           | (None, None) \<Rightarrow> ([SelectCall (servers b)], Some NilDereference)
           | (Some s, None) \<Rightarrow> ([SelectCall (servers b), ProxyTo (URL s)], None)))"

fun ServeHTTP :: "Backend \<Rightarrow> request \<Rightarrow> result" where
  "ServeHTTP (SimpleBackend b) r = simple_ServeHTTP b r"
| "ServeHTTP (ClusterBackend b) r = cluster_ServeHTTP b r"

text \<open>
  \<^verbatim>\<open>HealthStatus\<close>: \<open>clock i\<close> is what \<^verbatim>\<open>time.Now()\<close> returns in the
  \<open>i\<close>-th round of the loop.
\<close>

definition simple_HealthStatus :: "(nat \<Rightarrow> nat) \<Rightarrow> simpleBackend \<Rightarrow> (string \<rightharpoonup> HealthStatus)" where
  "simple_HealthStatus clock b =
     [url b \<mapsto> \<lparr>hs_Healthy = True, hs_LastCheck = clock 0, hs_Error = None\<rparr>]"

fun statusLoop ::
  "(nat \<Rightarrow> nat) \<Rightarrow> nat \<Rightarrow> Server list \<Rightarrow> (string \<rightharpoonup> HealthStatus) \<Rightarrow> (string \<rightharpoonup> HealthStatus)" where
  "statusLoop clock i [] status = status"
| "statusLoop clock i (server # rest) status =
     (let healthy = Healthy server
      in statusLoop clock (Suc i) rest
           (status(URL server \<mapsto> \<lparr>hs_Healthy = healthy, hs_LastCheck = clock i, hs_Error = None\<rparr>)))"

definition cluster_HealthStatus :: "(nat \<Rightarrow> nat) \<Rightarrow> clusterBackend \<Rightarrow> (string \<rightharpoonup> HealthStatus)" where
  "cluster_HealthStatus clock b = statusLoop clock 0 (servers b) Map.empty"

fun Backend_HealthStatus :: "(nat \<Rightarrow> nat) \<Rightarrow> Backend \<Rightarrow> (string \<rightharpoonup> HealthStatus)" where
  "Backend_HealthStatus clock (SimpleBackend b) = simple_HealthStatus clock b"
| "Backend_HealthStatus clock (ClusterBackend b) = cluster_HealthStatus clock b"

section \<open>Routes, the proxy and the builders\<close>

record Route =
  pattern :: string
  backend :: "Backend option"
  route_middlewares :: "Middleware list"
  handler :: Handler

text \<open>
  \<^verbatim>\<open>http.ServeMux\<close>: the patterns registered so far, each with its (non-nil) handler,
  in registration order. The \<^verbatim>\<open>http.Server\<close> of the proxy holds the address and the
  mux that \<^verbatim>\<open>buildHandler\<close> returned.
\<close>

type_synonym ServeMux = "(string \<times> (request \<Rightarrow> result)) list"

record httpServer =
  Addr :: string
  srv_Handler :: ServeMux

record defaultProxy =
  middlewares :: "Middleware list"
  routes :: "Route list"
  backends :: "string \<rightharpoonup> Backend"
  server :: "httpServer option"

record defaultRouteBuilder =
  rb_pattern :: string
  rb_middlewares :: "Middleware list"

record defaultBackendBuilder =
  bb_name :: string
  bb_servers :: "string list"
  bb_loadBalancer :: "LoadBalancer option"
  bb_healthPath :: string
  bb_healthInterval :: int

text \<open>
  A call that mutates the proxy either returns a value together with the proxy as it
  left it, or panics, again with the proxy as it was at that moment.
\<close>

datatype 'a outcome = Returns 'a defaultProxy | Panics panic defaultProxy

subsection \<open>The proxy\<close>

definition New :: "(defaultProxy \<Rightarrow> defaultProxy) list \<Rightarrow> defaultProxy" where
  "New opts =
     fold (\<lambda>opt p. opt p) opts
       \<lparr>middlewares = [], routes = [], backends = Map.empty, server = None\<rparr>"

definition WithErrorHandler :: "'h \<Rightarrow> defaultProxy \<Rightarrow> defaultProxy" where
  "WithErrorHandler h = (\<lambda>p. p)"

definition Use :: "Middleware list \<Rightarrow> defaultProxy \<Rightarrow> defaultProxy" where
  "Use ms p = p\<lparr>middlewares := middlewares p @ ms\<rparr>"

definition Route :: "string \<Rightarrow> defaultRouteBuilder" where
  "Route pat = \<lparr>rb_pattern = pat, rb_middlewares = []\<rparr>"

definition Backend :: "string \<Rightarrow> defaultBackendBuilder" where
  "Backend n =
     \<lparr>bb_name = n, bb_servers = [], bb_loadBalancer = None, bb_healthPath = [],
      bb_healthInterval = 0\<rparr>"

subsection \<open>The route builder\<close>

definition rb_Use :: "Middleware list \<Rightarrow> defaultRouteBuilder \<Rightarrow> defaultRouteBuilder" where
  "rb_Use ms rb = rb\<lparr>rb_middlewares := rb_middlewares rb @ ms\<rparr>"

definition To :: "defaultRouteBuilder \<Rightarrow> Backend option \<Rightarrow> defaultProxy \<Rightarrow> Route \<times> defaultProxy" where
  "To rb b p =
     (let route = \<lparr>pattern = rb_pattern rb, backend = b,
                   route_middlewares = rb_middlewares rb, handler = None\<rparr>
      in (route, p\<lparr>routes := routes p @ [route]\<rparr>))"


definition createSimpleBackend :: "urlParse \<Rightarrow> string \<Rightarrow> string \<Rightarrow> panic + Backend" where
  "createSimpleBackend parse n urlStr =
     (case parse urlStr of
        Inl err \<Rightarrow> Inl (Panic (''invalid URL: '' @ err))
      | Inr u \<Rightarrow> Inr (SimpleBackend \<lparr>sb_name = n, url = u\<rparr>))"

definition ToURL :: "urlParse \<Rightarrow> defaultRouteBuilder \<Rightarrow> string \<Rightarrow> defaultProxy \<Rightarrow> Route outcome" where
  "ToURL parse rb urlStr p =
     (case createSimpleBackend parse [] urlStr of
        Inl e \<Rightarrow> Panics e p
      | Inr b \<Rightarrow> (case To rb (Some b) p of (route, p') \<Rightarrow> Returns route p'))"

subsection \<open>The backend builder\<close>

definition AddServers :: "string list \<Rightarrow> defaultBackendBuilder \<Rightarrow> defaultBackendBuilder" where
  "AddServers urls bb = bb\<lparr>bb_servers := bb_servers bb @ urls\<rparr>"

definition WithLoadBalancer :: "LoadBalancer option \<Rightarrow> defaultBackendBuilder \<Rightarrow> defaultBackendBuilder" where
  "WithLoadBalancer lb bb = bb\<lparr>bb_loadBalancer := lb\<rparr>"

definition WithHealthCheck :: "string \<Rightarrow> int \<Rightarrow> defaultBackendBuilder \<Rightarrow> defaultBackendBuilder" where
  "WithHealthCheck pth ivl bb = bb\<lparr>bb_healthPath := pth, bb_healthInterval := ivl\<rparr>"

text \<open>The loop of \<^verbatim>\<open>Build\<close> over the server strings; it stops at the first parse error.\<close>

fun buildServers :: "urlParse \<Rightarrow> string list \<Rightarrow> Server list \<Rightarrow> string + Server list" where
  "buildServers parse [] acc = Inr acc"
| "buildServers parse (serverURL # rest) acc =
     (case parse serverURL of
        Inl err \<Rightarrow> Inl err
      | Inr u \<Rightarrow> buildServers parse rest (acc @ [\<lparr>URL = u, Healthy = True\<rparr>]))"

definition Build :: "urlParse \<Rightarrow> defaultBackendBuilder \<Rightarrow> defaultProxy \<Rightarrow> Backend outcome" where
  "Build parse bb p =
     (if length (bb_servers bb) = 0 then Panics (Panic ''no servers defined for backend'') p
      else if length (bb_servers bb) = 1 then
        (case parse (bb_servers bb ! 0) of
           Inl err \<Rightarrow> Panics (Panic (''invalid server URL: '' @ err)) p
         | Inr u \<Rightarrow>
             (let b = SimpleBackend \<lparr>sb_name = bb_name bb, url = u\<rparr>
              in Returns b (p\<lparr>backends := (backends p)(bb_name bb \<mapsto> b)\<rparr>)))
      else
        (case buildServers parse (bb_servers bb) [] of
           Inl err \<Rightarrow> Panics (Panic (''invalid server URL: '' @ err)) p
         | Inr ss \<Rightarrow>
             (let b = ClusterBackend
                        \<lparr>name = bb_name bb, servers = ss, loadBalancer = bb_loadBalancer bb,
                         healthCheck =
                           (if bb_healthPath bb \<noteq> []
                            then Some \<lparr>path = bb_healthPath bb, interval = bb_healthInterval bb\<rparr>
                            else None)\<rparr>
              in Returns b (p\<lparr>backends := (backends p)(bb_name bb \<mapsto> b)\<rparr>))))"

section \<open>The request multiplexer of net/http\<close>

text \<open>
  \<^verbatim>\<open>buildHandler\<close> registers every route with an \<^verbatim>\<open>http.ServeMux\<close>, and the mux is
  what answers requests. It belongs to Go's standard library, and only a part of it is
  described here: the definitions below say what the mux does for plain patterns and
  canonical paths, and the two predicates \<open>plainPattern\<close> and \<open>canonicalPath\<close> delimit that
  part. Every statement below that depends on how the mux parses a pattern or matches a
  path carries them as hypotheses; outside of them the definitions say nothing about Go.

  A path is canonical when the mux serves it as it is, without first redirecting to its
  cleaned form: it starts with a slash, has no empty segment but possibly the last, has no
  segment \<^verbatim>\<open>.\<close> or \<^verbatim>\<open>..\<close>, and has no percent escape. A pattern is plain when it is a
  canonical path without a blank or a tab (which would end a method name) and without a
  brace (which would open a wildcard); starting with a slash, it names no host.

  For these,
  \<^item> \<^verbatim>\<open>Handle\<close> panics on a nil handler and on a pattern that is registered already
    (and, whatever the rest of the pattern, on the empty pattern);
  \<^item> a pattern that ends in a slash names a subtree and matches every path it is a prefix
    of; any other pattern matches only the path equal to it;
  \<^item> a path that is registered itself takes that entry; otherwise a path without a final
    slash whose slash-terminated form is registered is redirected there; otherwise the
    longest matching subtree pattern wins; otherwise the answer is 404.
\<close>

fun splitSlash :: "string \<Rightarrow> string list" where
  "splitSlash [] = [[]]"
| "splitSlash (c # cs) =
     (if c = CHR ''/'' then [] # splitSlash cs
      else (case splitSlash cs of [] \<Rightarrow> [[c]] | seg # segs \<Rightarrow> (c # seg) # segs))"

fun cleanSegments :: "string list \<Rightarrow> bool" where
  "cleanSegments [] = True"
| "cleanSegments [seg] = (seg \<noteq> ''.'' \<and> seg \<noteq> ''..'')"
| "cleanSegments (seg # next # rest) =
     (seg \<noteq> [] \<and> seg \<noteq> ''.'' \<and> seg \<noteq> ''..'' \<and> cleanSegments (next # rest))"

definition canonicalPath :: "string \<Rightarrow> bool" where
  "canonicalPath pth =
     (CHR ''%'' \<notin> set pth \<and>
      (case splitSlash pth of
         first # next # rest \<Rightarrow> first = [] \<and> cleanSegments (next # rest)
       | _ \<Rightarrow> False))"

definition plainPattern :: "string \<Rightarrow> bool" where
  "plainPattern pat =
     (canonicalPath pat \<and> CHR '' '' \<notin> set pat \<and> CHR 0x09 \<notin> set pat \<and>
      CHR ''{'' \<notin> set pat \<and> CHR ''}'' \<notin> set pat)"

definition HasPrefix :: "string \<Rightarrow> string \<Rightarrow> bool" where
  "HasPrefix s pre = (length pre \<le> length s \<and> take (length pre) s = pre)"

definition HasSuffix :: "string \<Rightarrow> string \<Rightarrow> bool" where
  "HasSuffix s suf = (length suf \<le> length s \<and> drop (length s - length suf) s = suf)"

definition mux_Handle :: "ServeMux \<Rightarrow> string \<Rightarrow> Handler \<Rightarrow> panic + ServeMux" where
  "mux_Handle mux pat h =
     (if pat = [] then Inl MuxInvalidPattern
      else case h of
        None \<Rightarrow> Inl MuxNilHandler
      | Some f \<Rightarrow>
          if pat \<in> set (map fst mux) then Inl (MuxMultipleRegistrations pat)
          else Inr (mux @ [(pat, f)]))"


fun exactMatch :: "ServeMux \<Rightarrow> string \<Rightarrow> (string \<times> (request \<Rightarrow> result)) option" where
  "exactMatch [] pth = None"
| "exactMatch ((pat, f) # es) pth = (if pat = pth then Some (pat, f) else exactMatch es pth)"

fun subtreeMatch :: "ServeMux \<Rightarrow> string \<Rightarrow> (string \<times> (request \<Rightarrow> result)) option" where
  "subtreeMatch [] pth = None"
| "subtreeMatch ((pat, f) # es) pth =
     (case subtreeMatch es pth of
        None \<Rightarrow> (if HasSuffix pat ''/'' \<and> HasPrefix pth pat then Some (pat, f) else None)
      | Some (pat', f') \<Rightarrow>
          (if HasSuffix pat ''/'' \<and> HasPrefix pth pat \<and> length pat' < length pat
           then Some (pat, f) else Some (pat', f')))"

datatype lookup = Found string "request \<Rightarrow> result" | RedirectSlash string | NotFound

definition mux_lookup :: "ServeMux \<Rightarrow> string \<Rightarrow> lookup" where
  "mux_lookup mux pth =
     (case exactMatch mux pth of
        Some (pat, f) \<Rightarrow> Found pat f
      | None \<Rightarrow>
          if \<not> HasSuffix pth ''/'' \<and> exactMatch mux (pth @ ''/'') \<noteq> None
          then RedirectSlash (pth @ ''/'')
          else (case subtreeMatch mux pth of
                  Some (pat, f) \<Rightarrow> Found pat f
                | None \<Rightarrow> NotFound))"

definition mux_ServeHTTP :: "ServeMux \<Rightarrow> request \<Rightarrow> result" where
  "mux_ServeHTTP mux r =
     (case mux_lookup mux (URLPath r) of
        Found pat f \<Rightarrow> f r
      | RedirectSlash target \<Rightarrow> ([RedirectTo target], None)
      | NotFound \<Rightarrow> ([HttpError ''404 page not found'' 404], None))"

section \<open>Building the handler and serving\<close>

text \<open>
  The two inner loops of \<^verbatim>\<open>buildHandler\<close> run an index from the end of a middleware
  list down to 0; \<open>applyFrom ms k h\<close> is the loop with \<open>k\<close> rounds left to go, that is
  with index \<open>k - 1\<close> next.
\<close>

fun applyFrom :: "Middleware list \<Rightarrow> nat \<Rightarrow> Handler \<Rightarrow> Handler" where
  "applyFrom ms 0 h = h"
| "applyFrom ms (Suc i) h = applyFrom ms i ((ms ! i) h)"

definition baseHandler :: "Route \<Rightarrow> Handler" where
  "baseHandler route =
     (case handler route of
        Some f \<Rightarrow> Some f
      | None \<Rightarrow> (case backend route of Some b \<Rightarrow> Some (ServeHTTP b) | None \<Rightarrow> None))"

definition routeHandler :: "Middleware list \<Rightarrow> Route \<Rightarrow> Handler" where
  "routeHandler globals route =
     applyFrom globals (length globals)
       (applyFrom (route_middlewares route) (length (route_middlewares route))
          (baseHandler route))"

fun buildLoop :: "Middleware list \<Rightarrow> Route list \<Rightarrow> ServeMux \<Rightarrow> panic + ServeMux" where
  "buildLoop globals [] mux = Inr mux"
| "buildLoop globals (route # rest) mux =
     (case mux_Handle mux (pattern route) (routeHandler globals route) of
        Inl e \<Rightarrow> Inl e
      | Inr mux' \<Rightarrow> buildLoop globals rest mux')"

definition buildHandler :: "defaultProxy \<Rightarrow> panic + ServeMux" where
  "buildHandler p = buildLoop (middlewares p) (routes p) []"

text \<open>
  \<^verbatim>\<open>ListenAndServe\<close> builds the handler once, stores the server and starts serving;
  from then on the transport hands every request to the handler of the stored server,
  which is what \<open>dispatch\<close> does. Before \<^verbatim>\<open>ListenAndServe\<close> nothing is served.
\<close>

definition ListenAndServe :: "string \<Rightarrow> defaultProxy \<Rightarrow> unit outcome" where
  "ListenAndServe addr p =
     (case buildHandler p of
        Inl e \<Rightarrow> Panics e p
      | Inr mux \<Rightarrow> Returns () (p\<lparr>server := Some \<lparr>Addr = addr, srv_Handler = mux\<rparr>\<rparr>))"

definition dispatch :: "defaultProxy \<Rightarrow> request \<Rightarrow> result option" where
  "dispatch p r =
     (case server p of
        None \<Rightarrow> None
      | Some srv \<Rightarrow> Some (mux_ServeHTTP (srv_Handler srv) r))"

text \<open>
  An observing middleware, as a test of the package writes one: it leaves a mark when the
  request enters, calls the handler it wraps, and leaves a second mark when that call
  returns. A panic in the wrapped handler passes through it, so no second mark is left.
\<close>

definition tracer :: "string \<Rightarrow> Middleware" where
  "tracer n next =
     Some (\<lambda>r. case serve next r of
                  (es, None) \<Rightarrow> (Enter n # es @ [Exit n], None)
                | (es, Some e) \<Rightarrow> (Enter n # es, Some e))"

section \<open>Building backends\<close>

lemma buildServers_ok:
  "\<forall>s\<in>set ss. \<not> isl (parse s) \<Longrightarrow>
   buildServers parse ss acc = Inr (acc @ map (\<lambda>s. \<lparr>URL = projr (parse s), Healthy = True\<rparr>) ss)"
  by (induction ss arbitrary: acc) (auto split: sum.splits)

lemma buildServers_fail:
  "\<exists>s\<in>set ss. isl (parse s) \<Longrightarrow> \<exists>e. buildServers parse ss acc = Inl e"
  by (induction ss arbitrary: acc) (auto split: sum.splits)

lemma buildServers_healthy:
  "buildServers parse ss acc = Inr res \<Longrightarrow> \<forall>s\<in>set acc. Healthy s \<Longrightarrow> \<forall>s\<in>set res. Healthy s"
  by (induction ss arbitrary: acc) (auto split: sum.splits)

text \<open>
  Claim C9. When two or more server URLs were added, all of them parse, and no load
  balancer was set, \<^verbatim>\<open>Build\<close> returns (and registers) a cluster backend with one server
  per URL whose \<open>loadBalancer\<close> is nil: nothing is put in its place. \<^verbatim>\<open>ServeHTTP\<close> on
  that backend panics with a nil dereference before anything is written or forwarded.
\<close>

theorem C9_nil_balancer:
  assumes "2 \<le> length (bb_servers bb)"
    and "bb_loadBalancer bb = None"
    and "\<forall>s\<in>set (bb_servers bb). \<not> isl (parse s)"
  shows "\<exists>cb. Build parse bb p =
              Returns (ClusterBackend cb) (p\<lparr>backends := (backends p)(bb_name bb \<mapsto> ClusterBackend cb)\<rparr>)
            \<and> length (servers cb) = length (bb_servers bb)
            \<and> loadBalancer cb = None
            \<and> ServeHTTP (ClusterBackend cb) r = ([], Some NilDereference)"
proof -
  define cb where "cb =
    \<lparr>name = bb_name bb,
     servers = map (\<lambda>s. \<lparr>URL = projr (parse s), Healthy = True\<rparr>) (bb_servers bb),
     loadBalancer = (None :: LoadBalancer option),
     healthCheck = (if bb_healthPath bb \<noteq> []
                    then Some \<lparr>path = bb_healthPath bb, interval = bb_healthInterval bb\<rparr>
                    else None)\<rparr>"
  have len: "length (bb_servers bb) \<noteq> 0" "length (bb_servers bb) \<noteq> 1"
    using assms(1) by auto
  have "buildServers parse (bb_servers bb) [] = Inr (servers cb)"
    using assms(3) by (simp add: buildServers_ok cb_def)
  then have "Build parse bb p =
      Returns (ClusterBackend cb) (p\<lparr>backends := (backends p)(bb_name bb \<mapsto> ClusterBackend cb)\<rparr>)"
    using len assms(2) unfolding Build_def by (simp add: cb_def Let_def)
  moreover have "length (servers cb) = length (bb_servers bb)" by (simp add: cb_def)
  moreover have "loadBalancer cb = None" by (simp add: cb_def)
  moreover have "ServeHTTP (ClusterBackend cb) r = ([], Some NilDereference)"
    by (simp add: cluster_ServeHTTP_def cb_def)
  ultimately show ?thesis by blast
qed

text \<open>
  Claim C9, at a concrete input: two servers, a parser that rejects only the empty string,
  no load balancer.
\<close>

theorem C9_nil_balancer_witness:
  "\<exists>cb. Build (\<lambda>s. if s = [] then Inl ''empty url'' else Inr s)
           (AddServers [''http://a'', ''http://b''] (Backend ''api'')) (New [])
         = Returns (ClusterBackend cb)
             ((New [])\<lparr>backends := (backends (New []))(''api'' \<mapsto> ClusterBackend cb)\<rparr>)
       \<and> length (servers cb) = 2
       \<and> loadBalancer cb = None
       \<and> ServeHTTP (ClusterBackend cb) \<lparr>URLPath = ''/x''\<rparr> = ([], Some NilDereference)"
  using C9_nil_balancer [of "AddServers [''http://a'', ''http://b''] (Backend ''api'')"
      "\<lambda>s. if s = [] then Inl ''empty url'' else Inr s" "New []" "\<lparr>URLPath = ''/x''\<rparr>"]
  by (simp add: AddServers_def Backend_def numeral_2_eq_2)

text \<open>
  Claim C6, as the code has it. \<^verbatim>\<open>Build\<close> has no error result: with an empty server list
  it panics with the message \<^verbatim>\<open>no servers defined for backend\<close>, and when some server
  string does not parse it panics with \<^verbatim>\<open>invalid server URL: ...\<close>; \<^verbatim>\<open>ToURL\<close> panics
  with \<^verbatim>\<open>invalid URL: ...\<close> on a string that does not parse. In each case the panic
  happens at the registration call itself and the proxy, its backend registry included,
  is as it was before the call.
\<close>

theorem C6_panics:
  "(bb_servers bb = [] \<longrightarrow>
      Build parse bb p = Panics (Panic ''no servers defined for backend'') p)
   \<and> ((\<exists>s\<in>set (bb_servers bb). isl (parse s)) \<longrightarrow>
      (\<exists>e. Build parse bb p = Panics (Panic (''invalid server URL: '' @ e)) p))
   \<and> (isl (parse u) \<longrightarrow>
      ToURL parse rb u p = Panics (Panic (''invalid URL: '' @ projl (parse u))) p)"
proof (intro conjI impI)
  assume "bb_servers bb = []"
  then show "Build parse bb p = Panics (Panic ''no servers defined for backend'') p"
    by (simp add: Build_def)
next
  assume bad: "\<exists>s\<in>set (bb_servers bb). isl (parse s)"
  show "\<exists>e. Build parse bb p = Panics (Panic (''invalid server URL: '' @ e)) p"
  proof (cases "length (bb_servers bb) = 1")
    case True
    then obtain s where s: "bb_servers bb = [s]" by (cases "bb_servers bb") auto
    with bad have "isl (parse s)" by simp
    then obtain e where "parse s = Inl e" by (cases "parse s") auto
    with s show ?thesis by (simp add: Build_def)
  next
    case False
    from bad have ne: "bb_servers bb \<noteq> []" by auto
    from buildServers_fail [OF bad] obtain e where "buildServers parse (bb_servers bb) [] = Inl e"
      by blast
    with False ne show ?thesis by (simp add: Build_def)
  qed
next
  assume "isl (parse u)"
  then obtain e where "parse u = Inl e" by (cases "parse u") auto
  then show "ToURL parse rb u p = Panics (Panic (''invalid URL: '' @ projl (parse u))) p"
    by (simp add: ToURL_def createSimpleBackend_def)
qed

text \<open>
  Claim C6, as stated, fails: building a backend to which no server was added does not
  return a configuration error to the caller, it panics.
\<close>

theorem C6_counterexample:
  "Build (\<lambda>s. if s = [] then Inl ''empty url'' else Inr s) (Backend ''api'') (New [])
     = Panics (Panic ''no servers defined for backend'') (New [])"
  by (simp add: Build_def Backend_def)

text \<open>
  Claim C6 as amended, at concrete inputs: no server at all, a second server string that
  does not parse, and \<^verbatim>\<open>ToURL\<close> with a string that does not parse.
\<close>

theorem C6_panics_witness:
  "Build (\<lambda>s. if s = [] then Inl ''empty url'' else Inr s) (Backend ''api'') (New [])
     = Panics (Panic ''no servers defined for backend'') (New [])
   \<and> (\<exists>e. Build (\<lambda>s. if s = [] then Inl ''empty url'' else Inr s)
             (AddServers [''http://a'', []] (Backend ''api'')) (New [])
           = Panics (Panic (''invalid server URL: '' @ e)) (New []))
   \<and> ToURL (\<lambda>s. if s = [] then Inl ''empty url'' else Inr s) (Route ''/api'') [] (New [])
     = Panics (Panic ''invalid URL: empty url'') (New [])"
proof -
  let ?parse = "\<lambda>s::string. if s = [] then (Inl ''empty url'' :: string + url) else Inr s"
  have a: "Build ?parse (Backend ''api'') (New []) = Panics (Panic ''no servers defined for backend'') (New [])"
    using C6_panics [of "Backend ''api''" ?parse "New []" "[]" "Route ''/api''"]
    by (simp add: Backend_def)
  have b: "\<exists>e. Build ?parse (AddServers [''http://a'', []] (Backend ''api'')) (New [])
           = Panics (Panic (''invalid server URL: '' @ e)) (New [])"
    using C6_panics [of "AddServers [''http://a'', []] (Backend ''api'')" ?parse "New []" "[]" "Route ''/api''"]
    by (simp add: Backend_def AddServers_def)
  have c: "ToURL ?parse (Route ''/api'') [] (New []) = Panics (Panic ''invalid URL: empty url'') (New [])"
    using C6_panics [of "Backend ''api''" ?parse "New []" "[]" "Route ''/api''"]
    by simp
  from a b c show ?thesis by blast
qed

section \<open>Health reports\<close>

lemma statusLoop_notin:
  "k \<notin> URL ` set ss \<Longrightarrow> statusLoop clock i ss st k = st k"
  by (induction ss arbitrary: i st) (auto simp: Let_def)

lemma statusLoop_in:
  "k \<in> URL ` set ss \<Longrightarrow>
   \<exists>t. statusLoop clock i ss st k =
        Some \<lparr>hs_Healthy = Healthy (last (filter (\<lambda>s. URL s = k) ss)), hs_LastCheck = t, hs_Error = None\<rparr>"
proof (induction ss arbitrary: i st)
  case Nil
  then show ?case by simp
next
  case (Cons s ss)
  show ?case
  proof (cases "k \<in> URL ` set ss")
    case True
    then have "filter (\<lambda>s. URL s = k) ss \<noteq> []" by (auto simp: filter_empty_conv)
    with Cons.IH[OF True] show ?thesis by (simp add: Let_def)
  next
    case False
    then have ne: "filter (\<lambda>s. URL s = k) ss = []" by (auto simp: filter_empty_conv)
    have k: "URL s = k" using Cons.prems False by auto
    have "statusLoop clock (Suc i) ss (st(URL s \<mapsto> \<lparr>hs_Healthy = Healthy s, hs_LastCheck = clock i, hs_Error = None\<rparr>)) k
          = (st(URL s \<mapsto> \<lparr>hs_Healthy = Healthy s, hs_LastCheck = clock i, hs_Error = None\<rparr>)) k"
      using False by (rule statusLoop_notin)
    then show ?thesis using k ne by (simp add: Let_def)
  qed
qed

lemma statusLoop_dom: "dom (statusLoop clock i ss st) = dom st \<union> URL ` set ss"
  by (induction ss arbitrary: i st) (auto simp: Let_def)

lemma filter_distinct_URL:
  "distinct (map URL ss) \<Longrightarrow> s \<in> set ss \<Longrightarrow> filter (\<lambda>x. URL x = URL s) ss = [s]"
  by (induction ss) (auto simp: filter_empty_conv image_iff)

lemma Build_cluster_healthy:
  assumes "Build parse bb p = Returns (ClusterBackend cb) p'"
  shows "\<forall>s\<in>set (servers cb). Healthy s"
proof -
  from assms obtain ss where ss: "buildServers parse (bb_servers bb) [] = Inr ss" and cb: "servers cb = ss"
    by (auto simp: Build_def Let_def split: if_splits sum.splits)
  from buildServers_healthy [OF ss] cb show ?thesis by simp
qed

text \<open>
  Claim C10, as the code has it. Every server of a cluster backend that \<^verbatim>\<open>Build\<close> returns
  is created with \<open>Healthy = True\<close>. The map \<^verbatim>\<open>HealthStatus\<close> returns has the URL strings
  of the backend's servers as its keys; the entry of a key carries the \<open>Healthy\<close> flag of the
  last server in the list with that URL string, and no error. When the URL strings of the
  servers are pairwise different, the map has exactly one entry for each server and each
  entry carries the flag of its server.
\<close>

theorem C10_health_report:
  "(Build parse bb p = Returns (ClusterBackend cb) p' \<longrightarrow> (\<forall>s\<in>set (servers cb). Healthy s))
   \<and> dom (cluster_HealthStatus clock b) = URL ` set (servers b)
   \<and> (\<forall>k\<in>URL ` set (servers b). \<exists>t.
         cluster_HealthStatus clock b k =
           Some \<lparr>hs_Healthy = Healthy (last (filter (\<lambda>s. URL s = k) (servers b))),
                 hs_LastCheck = t, hs_Error = None\<rparr>)
   \<and> (distinct (map URL (servers b)) \<longrightarrow>
         card (dom (cluster_HealthStatus clock b)) = length (servers b)
         \<and> (\<forall>s\<in>set (servers b). \<exists>t.
               cluster_HealthStatus clock b (URL s) =
                 Some \<lparr>hs_Healthy = Healthy s, hs_LastCheck = t, hs_Error = None\<rparr>))"
proof -
  have built: "Build parse bb p = Returns (ClusterBackend cb) p' \<longrightarrow> (\<forall>s\<in>set (servers cb). Healthy s)"
    using Build_cluster_healthy by blast
  have dom: "dom (cluster_HealthStatus clock b) = URL ` set (servers b)"
    by (simp add: cluster_HealthStatus_def statusLoop_dom)
  have entry: "\<exists>t. cluster_HealthStatus clock b k =
           Some \<lparr>hs_Healthy = Healthy (last (filter (\<lambda>s. URL s = k) (servers b))),
                 hs_LastCheck = t, hs_Error = None\<rparr>"
    if "k \<in> URL ` set (servers b)" for k
    using statusLoop_in [OF that, of clock 0 Map.empty]
    by (simp add: cluster_HealthStatus_def)
  have one: "card (dom (cluster_HealthStatus clock b)) = length (servers b)"
    if d: "distinct (map URL (servers b))"
    using dom distinct_card [OF d] by simp
  have each: "\<exists>t. cluster_HealthStatus clock b (URL s) =
             Some \<lparr>hs_Healthy = Healthy s, hs_LastCheck = t, hs_Error = None\<rparr>"
    if d: "distinct (map URL (servers b))" and s: "s \<in> set (servers b)" for s
  proof -
    from s have "URL s \<in> URL ` set (servers b)" by simp
    from entry [OF this] filter_distinct_URL [OF d s] show ?thesis by simp
  qed
  from built dom entry one each show ?thesis by blast
qed

text \<open>
  Claim C10, as stated, fails: a backend built from the same URL given twice has two
  servers, and the map \<^verbatim>\<open>HealthStatus\<close> returns for it has one entry.
\<close>

theorem C10_counterexample:
  "Build (\<lambda>s. if s = [] then Inl ''empty url'' else Inr s)
     (AddServers [''http://a'', ''http://a''] (Backend ''api'')) (New [])
   = Returns (ClusterBackend
       \<lparr>name = ''api'',
        servers = [\<lparr>URL = ''http://a'', Healthy = True\<rparr>, \<lparr>URL = ''http://a'', Healthy = True\<rparr>],
        loadBalancer = None, healthCheck = None\<rparr>)
      ((New [])\<lparr>backends := (backends (New []))(''api'' \<mapsto> ClusterBackend
       \<lparr>name = ''api'',
        servers = [\<lparr>URL = ''http://a'', Healthy = True\<rparr>, \<lparr>URL = ''http://a'', Healthy = True\<rparr>],
        loadBalancer = None, healthCheck = None\<rparr>)\<rparr>)
   \<and> card (dom (cluster_HealthStatus (\<lambda>i. i)
       \<lparr>name = ''api'',
        servers = [\<lparr>URL = ''http://a'', Healthy = True\<rparr>, \<lparr>URL = ''http://a'', Healthy = True\<rparr>],
        loadBalancer = None, healthCheck = None\<rparr>)) = 1"
  by (simp add: Build_def AddServers_def Backend_def cluster_HealthStatus_def Let_def)

text \<open>
  Claim C10 as amended, at a concrete input: a backend built from two different URLs, and
  the same backend after its second server was marked unhealthy.
\<close>

theorem C10_health_report_witness:
  "map Healthy [\<lparr>URL = ''http://a'', Healthy = True\<rparr>, \<lparr>URL = ''http://b'', Healthy = True\<rparr>] = [True, True]
   \<and> dom (cluster_HealthStatus (\<lambda>i. i)
        \<lparr>name = ''api'',
         servers = [\<lparr>URL = ''http://a'', Healthy = True\<rparr>, \<lparr>URL = ''http://b'', Healthy = False\<rparr>],
         loadBalancer = None, healthCheck = None\<rparr>) = {''http://a'', ''http://b''}
   \<and> card (dom (cluster_HealthStatus (\<lambda>i. i)
        \<lparr>name = ''api'',
         servers = [\<lparr>URL = ''http://a'', Healthy = True\<rparr>, \<lparr>URL = ''http://b'', Healthy = False\<rparr>],
         loadBalancer = None, healthCheck = None\<rparr>)) = 2
   \<and> (\<exists>t. cluster_HealthStatus (\<lambda>i. i)
        \<lparr>name = ''api'',
         servers = [\<lparr>URL = ''http://a'', Healthy = True\<rparr>, \<lparr>URL = ''http://b'', Healthy = False\<rparr>],
         loadBalancer = None, healthCheck = None\<rparr> ''http://b''
        = Some \<lparr>hs_Healthy = False, hs_LastCheck = t, hs_Error = None\<rparr>)"
proof -
  let ?parse = "\<lambda>s::string. if s = [] then (Inl ''empty url'' :: string + url) else Inr s"
  let ?cb = "\<lparr>name = ''api'',
         servers = [\<lparr>URL = ''http://a'', Healthy = True\<rparr>, \<lparr>URL = ''http://b'', Healthy = True\<rparr>],
         loadBalancer = None, healthCheck = None\<rparr>"
  let ?b = "\<lparr>name = ''api'',
         servers = [\<lparr>URL = ''http://a'', Healthy = True\<rparr>, \<lparr>URL = ''http://b'', Healthy = False\<rparr>],
         loadBalancer = None, healthCheck = None\<rparr>"
  have built: "Build ?parse (AddServers [''http://a'', ''http://b''] (Backend ''api'')) (New [])
      = Returns (ClusterBackend ?cb) ((New [])\<lparr>backends := (backends (New []))(''api'' \<mapsto> ClusterBackend ?cb)\<rparr>)"
    by (simp add: Build_def AddServers_def Backend_def Let_def)
  have d: "distinct (map URL (servers ?b))" by simp
  have s: "\<lparr>URL = ''http://b'', Healthy = False\<rparr> \<in> set (servers ?b)" by simp
  note inst = C10_health_report [of ?parse "AddServers [''http://a'', ''http://b''] (Backend ''api'')" "New []"
      ?cb "(New [])\<lparr>backends := (backends (New []))(''api'' \<mapsto> ClusterBackend ?cb)\<rparr>" "\<lambda>i. i" ?b]
  from inst built have 1: "\<forall>s\<in>set (servers ?cb). Healthy s" by blast
  from inst have 2: "dom (cluster_HealthStatus (\<lambda>i. i) ?b) = URL ` set (servers ?b)" by blast
  from inst d have 3: "card (dom (cluster_HealthStatus (\<lambda>i. i) ?b)) = length (servers ?b)" by blast
  from inst d s have 4: "\<exists>t. cluster_HealthStatus (\<lambda>i. i) ?b (URL \<lparr>URL = ''http://b'', Healthy = False\<rparr>) =
      Some \<lparr>hs_Healthy = Healthy \<lparr>URL = ''http://b'', Healthy = False\<rparr>, hs_LastCheck = t, hs_Error = None\<rparr>"
    by blast
  from 1 2 3 4 show ?thesis by simp
qed

section \<open>Serving from a cluster\<close>

text \<open>
  Claim C1, as the code has it. \<^verbatim>\<open>ServeHTTP\<close> of a cluster backend hands \<^verbatim>\<open>Select\<close> the
  complete server list of the backend, whatever the health of the servers. When \<^verbatim>\<open>Select\<close>
  answers with a server and no error, the request is forwarded to that server and nothing
  else is done; and a request is forwarded only so, to the server \<^verbatim>\<open>Select\<close> answered
  with. Filtering by health is left to the load balancer: when \<^verbatim>\<open>Select\<close> only answers
  with healthy members of the list it was given, the request is forwarded to a healthy
  server of the backend only.
\<close>

theorem C1_select_sees_all_servers:
  assumes "loadBalancer b = Some lb"
  shows "(\<exists>rest. fst (cluster_ServeHTTP b r) = SelectCall (servers b) # rest)
       \<and> (\<forall>s. lb (servers b) r = (Some s, None) \<longrightarrow>
              cluster_ServeHTTP b r = ([SelectCall (servers b), ProxyTo (URL s)], None))
       \<and> (\<forall>u. ProxyTo u \<in> set (fst (cluster_ServeHTTP b r)) \<longrightarrow>
              (\<exists>s. lb (servers b) r = (Some s, None) \<and> URL s = u))
       \<and> ((\<forall>s. fst (lb (servers b) r) = Some s \<longrightarrow> s \<in> set (servers b) \<and> Healthy s) \<longrightarrow>
            (\<forall>u. ProxyTo u \<in> set (fst (cluster_ServeHTTP b r)) \<longrightarrow>
               (\<exists>s\<in>set (servers b). Healthy s \<and> URL s = u)))"
  using assms
  by (auto simp: cluster_ServeHTTP_def split: prod.splits option.splits)

text \<open>
  Claim C1, as stated, fails: with a first server that is unhealthy, a second that is
  healthy, and a load balancer that takes the head of the list it is given, \<^verbatim>\<open>Select\<close>
  is handed both servers and the request goes to the unhealthy one.
\<close>

theorem C1_counterexample:
  "cluster_ServeHTTP
     \<lparr>name = ''api'',
      servers = [\<lparr>URL = ''http://s1'', Healthy = False\<rparr>, \<lparr>URL = ''http://s2'', Healthy = True\<rparr>],
      loadBalancer = Some (\<lambda>ss r. case ss of [] \<Rightarrow> (None, Some ''no servers'') | s # rest \<Rightarrow> (Some s, None)),
      healthCheck = None\<rparr>
     \<lparr>URLPath = ''/''\<rparr>
   = ([SelectCall [\<lparr>URL = ''http://s1'', Healthy = False\<rparr>, \<lparr>URL = ''http://s2'', Healthy = True\<rparr>],
       ProxyTo ''http://s1''], None)"
  by (simp add: cluster_ServeHTTP_def)

text \<open>
  Claim C1 as amended, at a concrete input: the same two servers with a load balancer that
  takes the first healthy server of its list.
\<close>

theorem C1_select_sees_all_servers_witness:
  "cluster_ServeHTTP
     \<lparr>name = ''api'',
      servers = [\<lparr>URL = ''http://s1'', Healthy = False\<rparr>, \<lparr>URL = ''http://s2'', Healthy = True\<rparr>],
      loadBalancer = Some (\<lambda>ss r. case filter Healthy ss of [] \<Rightarrow> (None, Some ''no healthy server'') | s # rest \<Rightarrow> (Some s, None)),
      healthCheck = None\<rparr> \<lparr>URLPath = ''/''\<rparr>
   = ([SelectCall [\<lparr>URL = ''http://s1'', Healthy = False\<rparr>, \<lparr>URL = ''http://s2'', Healthy = True\<rparr>],
       ProxyTo ''http://s2''], None)
   \<and> (\<exists>s\<in>set [\<lparr>URL = ''http://s1'', Healthy = False\<rparr>, \<lparr>URL = ''http://s2'', Healthy = True\<rparr>].
         Healthy s \<and> URL s = ''http://s2'')"
proof -
  let ?lb = "\<lambda>(ss::Server list) (r::request). case filter Healthy ss of
               [] \<Rightarrow> (None :: Server option, Some ''no healthy server'') | s # rest \<Rightarrow> (Some s, None)"
  let ?b = "\<lparr>name = ''api'',
      servers = [\<lparr>URL = ''http://s1'', Healthy = False\<rparr>, \<lparr>URL = ''http://s2'', Healthy = True\<rparr>],
      loadBalancer = Some ?lb, healthCheck = None\<rparr>"
  have lb: "loadBalancer ?b = Some ?lb" by simp
  have sel: "?lb (servers ?b) \<lparr>URLPath = ''/''\<rparr> = (Some \<lparr>URL = ''http://s2'', Healthy = True\<rparr>, None)"
    by simp
  have ok: "\<forall>s. fst (?lb (servers ?b) \<lparr>URLPath = ''/''\<rparr>) = Some s \<longrightarrow> s \<in> set (servers ?b) \<and> Healthy s"
    by simp
  note inst = C1_select_sees_all_servers [OF lb, of "\<lparr>URLPath = ''/''\<rparr>"]
  from inst sel have ev: "cluster_ServeHTTP ?b \<lparr>URLPath = ''/''\<rparr> =
      ([SelectCall (servers ?b), ProxyTo (URL \<lparr>URL = ''http://s2'', Healthy = True\<rparr>)], None)"
    by blast
  from inst ok have "\<forall>u. ProxyTo u \<in> set (fst (cluster_ServeHTTP ?b \<lparr>URLPath = ''/''\<rparr>)) \<longrightarrow>
               (\<exists>s\<in>set (servers ?b). Healthy s \<and> URL s = u)"
    by blast
  with ev have "\<exists>s\<in>set (servers ?b). Healthy s \<and> URL s = ''http://s2''" by simp
  with ev show ?thesis by simp
qed

text \<open>
  Claim C5, as the code has it. When \<^verbatim>\<open>Select\<close> returns an error, \<^verbatim>\<open>ServeHTTP\<close> of a
  cluster backend calls \<^verbatim>\<open>http.Error\<close> with the fixed text \<^verbatim>\<open>No available backend\<close> and
  status 503; \<^verbatim>\<open>Select\<close> was called once and nothing is forwarded. \<^verbatim>\<open>ServeHTTP\<close> does not
  look at the health of the servers itself: a backend without a healthy server is answered
  with 503 provided the load balancer returns an error whenever no server of the list it
  is given is healthy.
\<close>

theorem C5_select_error_gives_503:
  assumes "loadBalancer b = Some lb"
  shows "(snd (lb (servers b) r) \<noteq> None \<longrightarrow>
            cluster_ServeHTTP b r =
              ([SelectCall (servers b), HttpError ''No available backend'' 503], None))
       \<and> ((\<forall>ss q. (\<forall>s\<in>set ss. \<not> Healthy s) \<longrightarrow> snd (lb ss q) \<noteq> None) \<and>
           (\<forall>s\<in>set (servers b). \<not> Healthy s) \<longrightarrow>
            cluster_ServeHTTP b r =
              ([SelectCall (servers b), HttpError ''No available backend'' 503], None))"
proof -
  have a: "cluster_ServeHTTP b r =
              ([SelectCall (servers b), HttpError ''No available backend'' 503], None)"
    if "snd (lb (servers b) r) \<noteq> None"
    using assms that by (auto simp: cluster_ServeHTTP_def split: prod.splits option.splits)
  then show ?thesis by blast
qed

text \<open>
  Claim C5, as stated, fails: with two unhealthy servers and a load balancer that takes the
  head of the list it is given, the request is forwarded to the first (unhealthy) server
  and no 503 is sent.
\<close>

theorem C5_counterexample:
  "cluster_ServeHTTP
     \<lparr>name = ''api'',
      servers = [\<lparr>URL = ''http://s1'', Healthy = False\<rparr>, \<lparr>URL = ''http://s2'', Healthy = False\<rparr>],
      loadBalancer = Some (\<lambda>ss r. case ss of [] \<Rightarrow> (None, Some ''no servers'') | s # rest \<Rightarrow> (Some s, None)),
      healthCheck = None\<rparr>
     \<lparr>URLPath = ''/''\<rparr>
   = ([SelectCall [\<lparr>URL = ''http://s1'', Healthy = False\<rparr>, \<lparr>URL = ''http://s2'', Healthy = False\<rparr>],
       ProxyTo ''http://s1''], None)"
  by (simp add: cluster_ServeHTTP_def)

text \<open>
  Claim C5 as amended, at a concrete input: two unhealthy servers and a load balancer that
  takes the first healthy server of its list and returns an error when there is none.
\<close>

theorem C5_select_error_gives_503_witness:
  "cluster_ServeHTTP
     \<lparr>name = ''api'',
      servers = [\<lparr>URL = ''http://s1'', Healthy = False\<rparr>, \<lparr>URL = ''http://s2'', Healthy = False\<rparr>],
      loadBalancer = Some (\<lambda>ss r. case filter Healthy ss of [] \<Rightarrow> (None, Some ''no healthy server'') | s # rest \<Rightarrow> (Some s, None)),
      healthCheck = None\<rparr>
     \<lparr>URLPath = ''/''\<rparr>
   = ([SelectCall [\<lparr>URL = ''http://s1'', Healthy = False\<rparr>, \<lparr>URL = ''http://s2'', Healthy = False\<rparr>],
       HttpError ''No available backend'' 503], None)"
proof -
  let ?lb = "\<lambda>(ss::Server list) (r::request). case filter Healthy ss of
               [] \<Rightarrow> (None :: Server option, Some ''no healthy server'') | s # rest \<Rightarrow> (Some s, None)"
  let ?b = "\<lparr>name = ''api'',
      servers = [\<lparr>URL = ''http://s1'', Healthy = False\<rparr>, \<lparr>URL = ''http://s2'', Healthy = False\<rparr>],
      loadBalancer = Some ?lb, healthCheck = None\<rparr>"
  have lb: "loadBalancer ?b = Some ?lb" by simp
  have err: "snd (?lb (servers ?b) \<lparr>URLPath = ''/''\<rparr>) \<noteq> None" by simp
  have contract: "\<forall>ss q. (\<forall>s\<in>set ss. \<not> Healthy s) \<longrightarrow> snd (?lb ss q) \<noteq> None"
    by (auto simp: filter_empty_conv split: list.splits)
  have all: "\<forall>s\<in>set (servers ?b). \<not> Healthy s" by simp
  note inst = C5_select_error_gives_503 [OF lb, of "\<lparr>URLPath = ''/''\<rparr>"]
  from inst err have "cluster_ServeHTTP ?b \<lparr>URLPath = ''/''\<rparr> =
              ([SelectCall (servers ?b), HttpError ''No available backend'' 503], None)"
    by blast
  moreover from inst contract all have "cluster_ServeHTTP ?b \<lparr>URLPath = ''/''\<rparr> =
              ([SelectCall (servers ?b), HttpError ''No available backend'' 503], None)"
    by blast
  ultimately show ?thesis by simp
qed

section \<open>Middleware composition\<close>

lemma applyFrom_take:
  "k \<le> length ms \<Longrightarrow> applyFrom ms k h = foldr (\<lambda>m h. m h) (take k ms) h"
  by (induction k arbitrary: h) (simp_all add: take_Suc_conv_app_nth)

lemma applyFrom_all: "applyFrom ms (length ms) h = foldr (\<lambda>m h. m h) ms h"
  by (simp add: applyFrom_take)

lemma routeHandler_foldr:
  "routeHandler gs route = foldr (\<lambda>m h. m h) (gs @ route_middlewares route) (baseHandler route)"
  by (simp add: routeHandler_def applyFrom_all)

lemma serve_tracers:
  "serve h r = (es, None) \<Longrightarrow>
   serve (foldr (\<lambda>m h. m h) (map tracer ns) h) r = (map Enter ns @ es @ map Exit (rev ns), None)"
  by (induction ns) (simp_all add: tracer_def serve_def)

text \<open>
  Claim C4. The handler \<^verbatim>\<open>buildHandler\<close> registers for a route is
  \<open>G1 (G2 (... (Gn (R1 (... (Rm base))))))\<close> for the global middlewares \<open>G1..Gn\<close> and the
  middlewares \<open>R1..Rm\<close> of the route. With observing middlewares named \<open>G\<close> (global) and
  \<open>R\<close> (of the route) around a handler that returns, the marks left are: the entries in the
  order \<open>G @ R\<close>, then what the handler did, then the exits in the reverse order.
\<close>

theorem C4_middleware_order:
  "routeHandler gs route = foldr (\<lambda>m h. m h) (gs @ route_middlewares route) (baseHandler route)
   \<and> (serve (baseHandler route) r = (es, None) \<longrightarrow>
        serve (routeHandler (map tracer G) (route\<lparr>route_middlewares := map tracer R\<rparr>)) r
          = (map Enter (G @ R) @ es @ map Exit (rev R @ rev G), None))"
proof -
  have "baseHandler (route\<lparr>route_middlewares := map tracer R\<rparr>) = baseHandler route"
    by (simp add: baseHandler_def split: option.splits)
  then have "serve (routeHandler (map tracer G) (route\<lparr>route_middlewares := map tracer R\<rparr>)) r
          = (map Enter (G @ R) @ es @ map Exit (rev R @ rev G), None)"
    if "serve (baseHandler route) r = (es, None)"
    using serve_tracers [OF that, of "G @ R"] by (simp add: routeHandler_foldr)
  then show ?thesis using routeHandler_foldr by blast
qed

text \<open>
  Claim C4, at a concrete input: global middlewares A, B and route middlewares C, D around
  a single-server backend.
\<close>

theorem C4_middleware_order_witness:
  "serve (routeHandler [tracer ''A'', tracer ''B'']
           \<lparr>pattern = ''/api/'', backend = Some (SimpleBackend \<lparr>sb_name = [], url = ''http://x''\<rparr>),
            route_middlewares = [tracer ''C'', tracer ''D''], handler = None\<rparr>)
         \<lparr>URLPath = ''/api/''\<rparr>
   = ([Enter ''A'', Enter ''B'', Enter ''C'', Enter ''D'', ProxyTo ''http://x'',
       Exit ''D'', Exit ''C'', Exit ''B'', Exit ''A''], None)"
proof -
  let ?route = "\<lparr>pattern = ''/api/'', backend = Some (SimpleBackend \<lparr>sb_name = [], url = ''http://x''\<rparr>),
            route_middlewares = [tracer ''C'', tracer ''D''], handler = None\<rparr>"
  have base: "serve (baseHandler ?route) \<lparr>URLPath = ''/api/''\<rparr> = ([ProxyTo ''http://x''], None)"
    by (simp add: baseHandler_def serve_def simple_ServeHTTP_def)
  note inst = C4_middleware_order [of "[tracer ''A'', tracer ''B'']" ?route
      "\<lparr>URLPath = ''/api/''\<rparr>" "[ProxyTo ''http://x'']" "[''A'', ''B'']" "[''C'', ''D'']",
      THEN conjunct2, rule_format, OF base]
  then show ?thesis by simp
qed

section \<open>Registration with the mux\<close>

lemma mux_Handle_Inr:
  "mux_Handle mux pat h = Inr mux' \<longleftrightarrow>
     pat \<noteq> [] \<and> pat \<notin> fst ` set mux \<and> (\<exists>f. h = Some f \<and> mux' = mux @ [(pat, f)])"
  by (auto simp: mux_Handle_def split: option.splits)

lemma buildLoop_Inr:
  "buildLoop gs rs mux = Inr mux' \<Longrightarrow>
     mux' = mux @ map (\<lambda>route. (pattern route, the (routeHandler gs route))) rs
     \<and> (\<forall>route\<in>set rs. pattern route \<noteq> [] \<and> routeHandler gs route \<noteq> None)
     \<and> (distinct (map fst mux) \<longrightarrow> distinct (map fst mux'))
     \<and> set (map pattern rs) \<inter> fst ` set mux = {}
     \<and> distinct (map pattern rs)"
proof (induction rs arbitrary: mux)
  case Nil
  then show ?case by simp
next
  case (Cons route rs)
  from Cons.prems obtain m1 where h: "mux_Handle mux (pattern route) (routeHandler gs route) = Inr m1"
    and rest: "buildLoop gs rs m1 = Inr mux'"
    by (auto split: sum.splits)
  from h obtain f where f: "pattern route \<noteq> []" "pattern route \<notin> fst ` set mux"
    "routeHandler gs route = Some f" "m1 = mux @ [(pattern route, f)]"
    by (auto simp: mux_Handle_Inr)
  from Cons.IH [OF rest] f show ?case by (auto simp: comp_def)
qed

lemma buildLoop_dup:
  "\<forall>route\<in>set rs. pattern route \<noteq> [] \<and> routeHandler gs route \<noteq> None \<Longrightarrow>
   \<not> distinct (map pattern rs) \<or> set (map pattern rs) \<inter> fst ` set mux \<noteq> {} \<Longrightarrow>
   \<exists>pat. buildLoop gs rs mux = Inl (MuxMultipleRegistrations pat)"
proof (induction rs arbitrary: mux)
  case Nil
  then show ?case by simp
next
  case (Cons route rs)
  then obtain f where f: "routeHandler gs route = Some f" and ne: "pattern route \<noteq> []" by auto
  show ?case
  proof (cases "pattern route \<in> fst ` set mux")
    case True
    with f ne show ?thesis by (simp add: mux_Handle_def)
  next
    case False
    with f ne have h: "mux_Handle mux (pattern route) (routeHandler gs route) = Inr (mux @ [(pattern route, f)])"
      by (simp add: mux_Handle_def)
    have "\<not> distinct (map pattern rs) \<or> set (map pattern rs) \<inter> fst ` set (mux @ [(pattern route, f)]) \<noteq> {}"
      using Cons.prems(2) False by auto
    with Cons.IH [of "mux @ [(pattern route, f)]"] Cons.prems(1) h show ?thesis by simp
  qed
qed

lemma buildLoop_fails_on_dup:
  "\<not> distinct (map pattern rs) \<Longrightarrow> \<exists>e. buildLoop gs rs mux = Inl e"
proof (cases "buildLoop gs rs mux")
  case (Inl e)
  then show ?thesis by blast
next
  case (Inr mux')
  assume "\<not> distinct (map pattern rs)"
  with buildLoop_Inr [OF Inr] show ?thesis by blast
qed


lemma plainPattern_nonempty: "plainPattern pat \<Longrightarrow> pat \<noteq> []"
  by (auto simp: plainPattern_def canonicalPath_def)

text \<open>
  Claim C2, as the code has it. \<^verbatim>\<open>To\<close> has no error result and makes no check: it appends
  the new route to the routes of the proxy, whatever patterns are registered already, and
  changes nothing else. A pattern registered twice is detected only when
  \<^verbatim>\<open>ListenAndServe\<close> builds the handler: the call panics and leaves the proxy without a
  server; when every route has a plain pattern and a handler, the panic is the mux's
  report that the pattern is registered already.
\<close>

theorem C2_duplicate_pattern_accepted:
  "(To rb b p = (route, p1) \<longrightarrow>
      routes p1 = routes p @ [route] \<and> pattern route = rb_pattern rb \<and> backend route = b
      \<and> middlewares p1 = middlewares p \<and> backends p1 = backends p \<and> server p1 = server p)
   \<and> (\<not> distinct (map pattern (routes p)) \<longrightarrow> (\<exists>e. ListenAndServe addr p = Panics e p))
   \<and> (\<not> distinct (map pattern (routes p))
        \<and> (\<forall>rt\<in>set (routes p). plainPattern (pattern rt) \<and> routeHandler (middlewares p) rt \<noteq> None)
      \<longrightarrow> (\<exists>pat. ListenAndServe addr p = Panics (MuxMultipleRegistrations pat) p))"
proof -
  have 1: "routes p1 = routes p @ [route] \<and> pattern route = rb_pattern rb \<and> backend route = b
      \<and> middlewares p1 = middlewares p \<and> backends p1 = backends p \<and> server p1 = server p"
    if "To rb b p = (route, p1)"
    using that by (auto simp: To_def Let_def)
  have 2: "\<exists>e. ListenAndServe addr p = Panics e p" if "\<not> distinct (map pattern (routes p))"
    using buildLoop_fails_on_dup [OF that, of "middlewares p" "[]"]
    by (auto simp: ListenAndServe_def buildHandler_def)
  have 3: "\<exists>pat. ListenAndServe addr p = Panics (MuxMultipleRegistrations pat) p"
    if "\<not> distinct (map pattern (routes p))"
      and "\<forall>rt\<in>set (routes p). plainPattern (pattern rt) \<and> routeHandler (middlewares p) rt \<noteq> None"
  proof -
    from that(2) have "\<forall>rt\<in>set (routes p). pattern rt \<noteq> [] \<and> routeHandler (middlewares p) rt \<noteq> None"
      using plainPattern_nonempty by blast
    with that(1) have "\<exists>pat. buildLoop (middlewares p) (routes p) [] = Inl (MuxMultipleRegistrations pat)"
      by (intro buildLoop_dup) auto
    then show ?thesis by (auto simp: ListenAndServe_def buildHandler_def)
  qed
  from 1 2 3 show ?thesis by blast
qed

text \<open>
  Claim C2, as stated, fails: registering \<^verbatim>\<open>/api\<close> a second time succeeds, and the table
  then holds both routes, each with its own backend.
\<close>

theorem C2_counterexample:
  "(let p1 = snd (To (Route ''/api'') (Some (SimpleBackend \<lparr>sb_name = [], url = ''http://x''\<rparr>)) (New []));
        p2 = snd (To (Route ''/api'') (Some (SimpleBackend \<lparr>sb_name = [], url = ''http://y''\<rparr>)) p1)
    in (map pattern (routes p1), map pattern (routes p2), map backend (routes p2)))
   = ([''/api''], [''/api'', ''/api''],
      [Some (SimpleBackend \<lparr>sb_name = [], url = ''http://x''\<rparr>),
       Some (SimpleBackend \<lparr>sb_name = [], url = ''http://y''\<rparr>)])"
  by (simp add: To_def Route_def New_def Let_def)

text \<open>
  Claim C2 as amended, at a concrete input: \<^verbatim>\<open>/api\<close> registered twice, then
  \<^verbatim>\<open>ListenAndServe\<close>.
\<close>

theorem C2_duplicate_pattern_accepted_witness:
  "(let p1 = snd (To (Route ''/api'') (Some (SimpleBackend \<lparr>sb_name = [], url = ''http://x''\<rparr>)) (New []));
        p2 = snd (To (Route ''/api'') (Some (SimpleBackend \<lparr>sb_name = [], url = ''http://y''\<rparr>)) p1)
    in routes p2 = routes p1 @ [fst (To (Route ''/api'') (Some (SimpleBackend \<lparr>sb_name = [], url = ''http://y''\<rparr>)) p1)]
       \<and> \<not> distinct (map pattern (routes p2))
       \<and> (\<exists>pat. ListenAndServe '':3000'' p2 = Panics (MuxMultipleRegistrations pat) p2))"
proof -
  define bx where "bx = SimpleBackend \<lparr>sb_name = [], url = ''http://x''\<rparr>"
  define by' where "by' = SimpleBackend \<lparr>sb_name = [], url = ''http://y''\<rparr>"
  define p1 where "p1 = snd (To (Route ''/api'') (Some bx) (New []))"
  define p2 where "p2 = snd (To (Route ''/api'') (Some by') p1)"
  define rt where "rt = fst (To (Route ''/api'') (Some by') p1)"
  have to: "To (Route ''/api'') (Some by') p1 = (rt, p2)" by (simp add: rt_def p2_def)
  have pats: "map pattern (routes p2) = [''/api'', ''/api'']"
    by (simp add: p2_def p1_def To_def Route_def New_def Let_def)
  then have nd: "\<not> distinct (map pattern (routes p2))" by simp
  have ok: "\<forall>rt\<in>set (routes p2). plainPattern (pattern rt) \<and> routeHandler (middlewares p2) rt \<noteq> None"
    by (simp add: p2_def p1_def To_def Route_def New_def Let_def routeHandler_def baseHandler_def bx_def by'_def
        plainPattern_def canonicalPath_def)
  note inst1 = C2_duplicate_pattern_accepted [of "Route ''/api''" "Some by'" p1 rt p2 "'':3000''"]
  note inst2 = C2_duplicate_pattern_accepted [of "Route ''/api''" "Some by'" p2 rt p2 "'':3000''"]
  from inst1 to have a: "routes p2 = routes p1 @ [rt]" by blast
  from inst2 nd ok have b: "\<exists>pat. ListenAndServe '':3000'' p2 = Panics (MuxMultipleRegistrations pat) p2"
    by blast
  from a nd b show ?thesis
    unfolding Let_def p2_def [symmetric] p1_def [symmetric] rt_def [symmetric] bx_def [symmetric] by'_def [symmetric]
    by (simp add: p2_def [symmetric] p1_def [symmetric] rt_def [symmetric] bx_def [symmetric] by'_def [symmetric])
qed

section \<open>Dispatch\<close>













text \<open>
  Claim C3 against the code. The routes are registered with the mux under their patterns as
  they are, and the mux matches a pattern without a final slash against the path equal to
  it only. With the plain patterns \<^verbatim>\<open>/api\<close> and \<^verbatim>\<open>/api/users\<close> registered, the canonical
  paths \<^verbatim>\<open>/api\<close> and \<^verbatim>\<open>/api/users\<close> reach their routes, and the requests for
  \<^verbatim>\<open>/api/users/123\<close> and for \<^verbatim>\<open>/api/status\<close> are both answered with 404: neither is
  dispatched to the route of the longest pattern that is a prefix of its path.
\<close>

theorem C3_prefix_requests_not_found:
  "plainPattern ''/api'' \<and> plainPattern ''/api/users''
   \<and> canonicalPath ''/api/users/123'' \<and> canonicalPath ''/api/status''
   \<and> (case ListenAndServe '':3000''
           (snd (To (Route ''/api/users'') (Some (SimpleBackend \<lparr>sb_name = [], url = ''http://y''\<rparr>))
             (snd (To (Route ''/api'') (Some (SimpleBackend \<lparr>sb_name = [], url = ''http://x''\<rparr>))
               (New []))))) of
      Returns u p' \<Rightarrow>
        [dispatch p' \<lparr>URLPath = ''/api''\<rparr>, dispatch p' \<lparr>URLPath = ''/api/users''\<rparr>,
         dispatch p' \<lparr>URLPath = ''/api/users/123''\<rparr>, dispatch p' \<lparr>URLPath = ''/api/status''\<rparr>]
    | Panics e p' \<Rightarrow> [])
   = [Some ([ProxyTo ''http://x''], None), Some ([ProxyTo ''http://y''], None),
      Some ([HttpError ''404 page not found'' 404], None),
      Some ([HttpError ''404 page not found'' 404], None)]"
  by (simp add: ListenAndServe_def buildHandler_def To_def Route_def New_def Let_def
      routeHandler_def baseHandler_def mux_Handle_def dispatch_def mux_ServeHTTP_def
      mux_lookup_def HasSuffix_def HasPrefix_def simple_ServeHTTP_def
      plainPattern_def canonicalPath_def)




end
